theory Spec2Isabelle
  imports Main "HOL-Library.Word"
begin

unbundle bit_operations_syntax

section \<open>include/swift/AST/Module.h: the data model\<close>

text \<open>
  Objects that the header only forward-declares (\<^verbatim>\<open>Component\<close>, \<^verbatim>\<open>ASTContext\<close>,
  \<^verbatim>\<open>ModuleLoader\<close>, declarations) are represented by their identity, a natural number.
  A C++ pointer is an \<open>option\<close>: \<open>None\<close> is \<^verbatim>\<open>nullptr\<close>. A failed \<^verbatim>\<open>assert\<close> is the
  error value \<open>AssertionFailure\<close>, so every assertion of the header is a branch of the
  function that carries it.
\<close>

type_synonym Component = nat
type_synonym ASTContext = nat
type_synonym ModuleLoader = nat
type_synonym Identifier = string
type_synonym SourceLoc = nat
type_synonym LinkLibrary = string
type_synonym Decl = nat
type_synonym ModuleRef = nat

abbreviation nullptr :: "'a option" where
  "nullptr \<equiv> None"

datatype error = AssertionFailure | NullDereference

datatype NLKind = UnqualifiedLookup | QualifiedLookup

datatype ModuleKind = TranslationUnit | BuiltinModule | SerializedModule | ClangModule

datatype ConformanceKind = DoesNotConform | Conforms | UncheckedConforms

datatype ASTStage_t = Parsing | Parsed | NameBound | TypeChecked

datatype TUKind = Library | Main | REPL | SIL

text \<open>The enumerators of \<^verbatim>\<open>ASTStage_t\<close> are compared as integers (\<^verbatim>\<open>ASTStage >= Parsed\<close>).\<close>

fun ASTStage_value :: "ASTStage_t \<Rightarrow> nat" where
  "ASTStage_value Parsing = 0"
| "ASTStage_value Parsed = 1"
| "ASTStage_value NameBound = 2"
| "ASTStage_value TypeChecked = 3"

type_synonym AccessPathTy = "(Identifier \<times> SourceLoc) list"
type_synonym ImportedModule = "AccessPathTy \<times> ModuleRef"

record Module =
  Kind :: ModuleKind
  LookupCachePimpl :: "nat option"
  Comp :: "Component option"
  Ctx :: ASTContext
  Name :: Identifier
  ASTStage :: ASTStage_t

text \<open>
  \<^verbatim>\<open>TranslationUnit::Kind\<close> hides \<^verbatim>\<open>Module::Kind\<close> in the source; the record field is
  \<open>TU_Kind\<close>. \<^verbatim>\<open>int ImportBufferID\<close> is a 32-bit word read as two's complement, so that
  the conversion from the \<^verbatim>\<open>unsigned\<close> argument of \<^verbatim>\<open>setImportBufferID\<close> keeps the bits.
\<close>

record TranslationUnit = Module +
  Imports :: "(ImportedModule \<times> bool) list"
  LinkLibraries :: "LinkLibrary list"
  ImportBufferID :: "32 word"
  TU_Kind :: TUKind
  HasBuiltinModuleAccess :: bool
  Decls :: "Decl list"
  InfixOperators :: "string \<rightharpoonup> Decl"
  PostfixOperators :: "string \<rightharpoonup> Decl"
  PrefixOperators :: "string \<rightharpoonup> Decl"

record LoadedModule = Module +
  DebugModuleName :: string

section \<open>Name lookup options\<close>

definition NL_VisitSupertypes :: "32 word" where
  "NL_VisitSupertypes = 0x01"

definition NL_ProtocolMembers :: "32 word" where
  "NL_ProtocolMembers = 0x02"

definition NL_RemoveNonVisible :: "32 word" where
  "NL_RemoveNonVisible = 0x04"

definition NL_RemoveOverridden :: "32 word" where
  "NL_RemoveOverridden = 0x08"

definition NL_DynamicLookup :: "32 word" where
  "NL_DynamicLookup = 0x10"

definition NL_QualifiedDefault :: "32 word" where
  "NL_QualifiedDefault = NL_VisitSupertypes OR NL_RemoveNonVisible OR NL_RemoveOverridden"

definition NL_UnqualifiedDefault :: "32 word" where
  "NL_UnqualifiedDefault = NL_VisitSupertypes OR NL_RemoveNonVisible OR NL_RemoveOverridden"

definition NL_Constructor :: "32 word" where
  "NL_Constructor = NL_RemoveNonVisible"

text \<open>An option is part of a set of options when the bitwise conjunction is not zero
  (\<^verbatim>\<open>options & NL_RemoveOverridden\<close>).\<close>

definition hasOption :: "32 word \<Rightarrow> 32 word \<Rightarrow> bool" where
  "hasOption options opt = (options AND opt \<noteq> 0)"

section \<open>Constructors and accessors of Module and its subclasses\<close>

definition Module_ctor ::
  "ModuleKind \<Rightarrow> Identifier \<Rightarrow> Component option \<Rightarrow> ASTContext \<Rightarrow> error + Module" where
  "Module_ctor kind name C ctx =
     (if C \<noteq> nullptr \<or> kind = BuiltinModule
      then Inr \<lparr>Kind = kind, LookupCachePimpl = nullptr, Comp = C, Ctx = ctx,
                Name = name, ASTStage = Parsing\<rparr>
      else Inl AssertionFailure)"

definition getKind :: "'a Module_scheme \<Rightarrow> ModuleKind" where
  "getKind m = Kind m"

definition getComponent :: "'a Module_scheme \<Rightarrow> error + Component option" where
  "getComponent m = (if Comp m \<noteq> nullptr then Inr (Comp m) else Inl AssertionFailure)"

definition TranslationUnit_ctor ::
  "Identifier \<Rightarrow> Component option \<Rightarrow> ASTContext \<Rightarrow> TUKind \<Rightarrow> error + TranslationUnit" where
  "TranslationUnit_ctor name component C kind =
     (case Module_ctor TranslationUnit name component C of
        Inl e \<Rightarrow> Inl e
      | Inr m \<Rightarrow>
          Inr \<lparr>Kind = Kind m, LookupCachePimpl = LookupCachePimpl m, Comp = Comp m,
               Ctx = Ctx m, Name = Name m, ASTStage = ASTStage m,
               Imports = [], LinkLibraries = [], ImportBufferID = - 1, TU_Kind = kind,
               HasBuiltinModuleAccess = False, Decls = [],
               InfixOperators = Map.empty, PostfixOperators = Map.empty,
               PrefixOperators = Map.empty\<rparr>)"

definition BuiltinModule_ctor :: "Identifier \<Rightarrow> ASTContext \<Rightarrow> error + Module" where
  "BuiltinModule_ctor name ctx =
     (case Module_ctor BuiltinModule name nullptr ctx of
        Inl e \<Rightarrow> Inl e
      | Inr m \<Rightarrow> Inr (m\<lparr>ASTStage := TypeChecked\<rparr>))"

definition LoadedModule_ctor ::
  "ModuleKind \<Rightarrow> Identifier \<Rightarrow> string \<Rightarrow> Component option \<Rightarrow> ASTContext \<Rightarrow> ModuleLoader
     \<Rightarrow> error + LoadedModule" where
  "LoadedModule_ctor kind name debugModuleName component ctx owner =
     (case Module_ctor kind name component ctx of
        Inl e \<Rightarrow> Inl e
      | Inr m \<Rightarrow>
          Inr \<lparr>Kind = Kind m, LookupCachePimpl = Some owner, Comp = Comp m,
               Ctx = Ctx m, Name = Name m, ASTStage = TypeChecked,
               DebugModuleName = debugModuleName\<rparr>)"

definition getOwner :: "LoadedModule \<Rightarrow> error + ModuleLoader" where
  "getOwner m = (case LookupCachePimpl m of None \<Rightarrow> Inl NullDereference | Some l \<Rightarrow> Inr l)"

definition getImports :: "TranslationUnit \<Rightarrow> error + (ImportedModule \<times> bool) list" where
  "getImports tu =
     (if ASTStage_value (ASTStage tu) \<ge> ASTStage_value Parsed \<or> TU_Kind tu = SIL
      then Inr (Imports tu) else Inl AssertionFailure)"

definition setImports ::
  "TranslationUnit \<Rightarrow> (ImportedModule \<times> bool) list \<Rightarrow> error + TranslationUnit" where
  "setImports tu IM = Inr (tu\<lparr>Imports := IM\<rparr>)"

definition setLinkLibraries ::
  "TranslationUnit \<Rightarrow> LinkLibrary list \<Rightarrow> error + TranslationUnit" where
  "setLinkLibraries tu libs =
     (if LinkLibraries tu = [] then Inr (tu\<lparr>LinkLibraries := libs\<rparr>)
      else Inl AssertionFailure)"

definition getLinkLibraries :: "TranslationUnit \<Rightarrow> LinkLibrary list" where
  "getLinkLibraries tu = LinkLibraries tu"

definition getImportBufferID :: "TranslationUnit \<Rightarrow> int" where
  "getImportBufferID tu = sint (ImportBufferID tu)"

definition setImportBufferID :: "TranslationUnit \<Rightarrow> 32 word \<Rightarrow> error + TranslationUnit" where
  "setImportBufferID tu BufID =
     (if ImportBufferID tu = - 1 then Inr (tu\<lparr>ImportBufferID := BufID\<rparr>)
      else Inl AssertionFailure)"

section \<open>Sequences of setter calls\<close>

text \<open>
  The three setters of a translation unit as one operation type, and a run of calls that
  stops at the first failed assertion.
\<close>

datatype setter =
  SetImports "(ImportedModule \<times> bool) list"
| SetLinkLibraries "LinkLibrary list"
| SetImportBufferID "32 word"

fun apply_setter :: "TranslationUnit \<Rightarrow> setter \<Rightarrow> error + TranslationUnit" where
  "apply_setter tu (SetImports IM) = setImports tu IM"
| "apply_setter tu (SetLinkLibraries libs) = setLinkLibraries tu libs"
| "apply_setter tu (SetImportBufferID BufID) = setImportBufferID tu BufID"

fun apply_setters :: "TranslationUnit \<Rightarrow> setter list \<Rightarrow> error + TranslationUnit" where
  "apply_setters tu [] = Inr tu"
| "apply_setters tu (s # ss) =
     (case apply_setter tu s of Inl e \<Rightarrow> Inl e | Inr tu' \<Rightarrow> apply_setters tu' ss)"

section \<open>Access paths and imported modules\<close>

text \<open>
  Modelled from the spec: the body of \<^verbatim>\<open>Module::isSameAccessPath\<close>, which the header only
  declares (\<open>Returns true if the two access paths contain the same chain of identifiers.
  Source locations are ignored here.\<close>). The spec: an access path is an ordered sequence of
  (identifier, sourcePosition), and equality compares only the identifier sequence. The
  two paths are walked in step; a pair of elements agrees when the identifiers agree, and
  paths of different lengths differ.
\<close>

fun isSameAccessPath :: "AccessPathTy \<Rightarrow> AccessPathTy \<Rightarrow> bool" where
  "isSameAccessPath [] [] = True"
| "isSameAccessPath (l # lhs) (r # rhs) = (fst l = fst r \<and> isSameAccessPath lhs rhs)"
| "isSameAccessPath lhs rhs = False"

text \<open>\<^verbatim>\<open>DenseMapInfo<swift::Module::ImportedModule>::isEqual\<close>, as the header defines it.\<close>

definition isEqual :: "ImportedModule \<Rightarrow> ImportedModule \<Rightarrow> bool" where
  "isEqual lhs rhs = (snd lhs = snd rhs \<and> isSameAccessPath (fst lhs) (fst rhs))"

section \<open>The modules of a compilation and the import graph\<close>

text \<open>
  \<^verbatim>\<open>DeclKind\<close> is only forward-declared; \<^verbatim>\<open>LoadedModule::lookupOperator\<close> documents the
  three values it is called with.
\<close>

datatype DeclKind = PrefixOperator | InfixOperator | PostfixOperator

text \<open>
  Modelled from the spec: the objects a \<^verbatim>\<open>Module *\<close> points to, which live in the
  \<^verbatim>\<open>ASTContext\<close> and in the loaders' caches, outside the header. The spec's Module is a
  variant over source unit, built-in unit and loaded unit; a loaded unit delegates its
  imports and its operator lookup to the module loader that produced it, so it carries
  the loader's answers. A compilation holds finitely many modules: the store is an
  association list from module identity to object.
\<close>

datatype ModuleObject =
  SourceUnit TranslationUnit
| Builtin Module
| Loaded LoadedModule "(ImportedModule \<times> bool) list" "DeclKind \<Rightarrow> string \<rightharpoonup> Decl"

type_synonym ModuleStore = "(ModuleRef \<times> ModuleObject) list"

text \<open>
  Modelled from the spec: the imports of a module object: the \<^verbatim>\<open>Imports\<close> of a source
  unit, none for the built-in unit, the loader's list for a loaded unit.
\<close>

fun importsOf :: "ModuleObject \<Rightarrow> (ImportedModule \<times> bool) list" where
  "importsOf (SourceUnit tu) = Imports tu"
| "importsOf (Builtin b) = []"
| "importsOf (Loaded lm ims lookupOperator) = ims"

definition isTranslationUnit :: "ModuleStore \<Rightarrow> ModuleRef \<Rightarrow> bool" where
  "isTranslationUnit S m = (case map_of S m of Some (SourceUnit tu) \<Rightarrow> True | _ \<Rightarrow> False)"

text \<open>
  Modelled from the spec: the body of \<^verbatim>\<open>Module::getImportedModules\<close> (declared only).
  The spec (4.4): the direct re-export edges of a module; when \<open>includePrivate\<close> is false,
  only edges marked \<open>isReexported\<close> are returned. The result is the list that the source
  appends to its output vector.
\<close>

definition getImportedModules :: "ModuleStore \<Rightarrow> ModuleRef \<Rightarrow> bool \<Rightarrow> ImportedModule list" where
  "getImportedModules S m includePrivate =
     (case map_of S m of
        None \<Rightarrow> []
      | Some obj \<Rightarrow> map fst (filter (\<lambda>e. includePrivate \<or> snd e) (importsOf obj)))"

text \<open>Every module that some module of the store imports.\<close>

definition importTargets :: "ModuleStore \<Rightarrow> ModuleRef set" where
  "importTargets S = (\<Union>e \<in> set S. (\<lambda>i. snd (fst i)) ` set (importsOf (snd e)))"

lemma finite_importTargets: "finite (importTargets S)"
  by (simp add: importTargets_def)

lemma getImportedModules_targets:
  "snd ` set (getImportedModules S m b) \<subseteq> importTargets S"
proof (cases "map_of S m")
  case None
  then show ?thesis by (simp add: getImportedModules_def)
next
  case (Some obj)
  then have "(m, obj) \<in> set S" by (rule map_of_SomeD)
  then have "(\<lambda>i. snd (fst i)) ` set (importsOf obj) \<subseteq> importTargets S"
    unfolding importTargets_def by force
  moreover have "snd ` set (getImportedModules S m b) \<subseteq> (\<lambda>i. snd (fst i)) ` set (importsOf obj)"
    using Some by (force simp: getImportedModules_def)
  ultimately show ?thesis by blast
qed

text \<open>
  Modelled from the spec: the loop of \<^verbatim>\<open>Module::forAllVisibleModules\<close> (the overload taking
  \<^verbatim>\<open>std::function<bool(ImportedModule)>\<close> is declared only). The spec (4.4, 5): a
  depth-first traversal over re-export edges, implemented iteratively; a visited-set keyed
  by module identity (not by access path); the visitor returns a continue/abort signal and
  the traversal stops immediately on abort. \<open>queue\<close> is the work list, \<open>visited\<close> the
  visited-set, \<open>s\<close> the state the callback closes over. The first component of the result
  is the sequence of calls of the visitor, each with the signal it returned; the second is
  the callback's state at the end.
\<close>

function walk ::
  "ModuleStore \<Rightarrow> (ImportedModule \<Rightarrow> 's \<Rightarrow> bool \<times> 's) \<Rightarrow> ImportedModule list \<Rightarrow> ModuleRef list
     \<Rightarrow> 's \<Rightarrow> (ImportedModule \<times> bool) list \<times> 's" where
  "walk S fn [] visited s = ([], s)"
| "walk S fn (next # queue) visited s =
     (if snd next \<in> set visited then walk S fn queue visited s
      else
        let r = fn next s in
        if fst r then
          (let w = walk S fn (getImportedModules S (snd next) False @ queue)
                     (snd next # visited) (snd r)
           in ((next, True) # fst w, snd w))
        else ([(next, False)], snd r))"
  by pat_completeness auto
termination
proof (relation "measures
    [\<lambda>(S, fn, queue, visited, s). card ((importTargets S \<union> snd ` set queue) - set visited),
     \<lambda>(S, fn, queue, visited, s). length queue]", goal_cases)
  case 1
  show ?case by simp
next
  case (2 S fn "next" queue visited s)
  have "(importTargets S \<union> snd ` set queue) - set visited
        \<subseteq> (importTargets S \<union> snd ` set (next # queue)) - set visited"
    by auto
  moreover have "finite ((importTargets S \<union> snd ` set (next # queue)) - set visited)"
    by (simp add: finite_importTargets)
  ultimately have "card ((importTargets S \<union> snd ` set queue) - set visited)
        \<le> card ((importTargets S \<union> snd ` set (next # queue)) - set visited)"
    by (rule card_mono [rotated])
  then show ?case by auto
next
  case (3 S fn "next" queue visited s r)
  let ?new = "(importTargets S \<union> snd ` set (getImportedModules S (snd next) False @ queue))
      - set (snd next # visited)"
  let ?old = "(importTargets S \<union> snd ` set (next # queue)) - set visited"
  from 3 have "snd next \<in> ?old" by simp
  moreover have "snd next \<notin> ?new" by simp
  moreover have "?new \<subseteq> ?old"
    using getImportedModules_targets [of S "snd next" False] by auto
  ultimately have "?new \<subset> ?old" by blast
  moreover have "finite ?old" by (simp add: finite_importTargets)
  ultimately have "card ?new < card ?old" by (rule psubset_card_mono [rotated])
  then show ?case by simp
qed

text \<open>
  Modelled from the spec: the body of \<^verbatim>\<open>Module::forAllVisibleModules\<close> around the loop.
  The header's comment: \<open>For most modules this means any re-exports, but for a translation
  unit all imports are considered. If [topLevelAccessPath is] present, include the
  top-level module in the results, with the given access path.\<close> The spec (4.4): if
  \<open>topLevelAccessPath\<close> is supplied, the module itself is visited first under that path.
  Without a path the starting module is marked visited and is not reported.
\<close>

definition forAllVisibleModules ::
  "ModuleStore \<Rightarrow> ModuleRef \<Rightarrow> AccessPathTy option \<Rightarrow> (ImportedModule \<Rightarrow> 's \<Rightarrow> bool \<times> 's) \<Rightarrow> 's
     \<Rightarrow> (ImportedModule \<times> bool) list \<times> 's" where
  "forAllVisibleModules S this topLevelAccessPath fn s =
     (let queue = getImportedModules S this (isTranslationUnit S this) in
      case topLevelAccessPath of
        None \<Rightarrow> walk S fn queue [this] s
      | Some path \<Rightarrow>
          let r = fn (path, this) s in
          if fst r then
            (let w = walk S fn queue [this] (snd r) in (((path, this), True) # fst w, snd w))
          else ([((path, this), False)], snd r))"

text \<open>
  The overload for a callback that returns \<^verbatim>\<open>void\<close>, as the header defines it: the
  callback is wrapped into one that always returns \<^verbatim>\<open>true\<close>.
\<close>

definition forAllVisibleModules_void ::
  "ModuleStore \<Rightarrow> ModuleRef \<Rightarrow> AccessPathTy option \<Rightarrow> (ImportedModule \<Rightarrow> 's \<Rightarrow> 's) \<Rightarrow> 's
     \<Rightarrow> (ImportedModule \<times> bool) list \<times> 's" where
  "forAllVisibleModules_void S this topLevelAccessPath fn s =
     forAllVisibleModules S this topLevelAccessPath (\<lambda>import s. (True, fn import s)) s"

text \<open>
  Running a visitor over a sequence of imported modules, one call after the other: the
  signals it returns and its state at the end.
\<close>

fun replay ::
  "(ImportedModule \<Rightarrow> 's \<Rightarrow> bool \<times> 's) \<Rightarrow> ImportedModule list \<Rightarrow> 's \<Rightarrow> bool list \<times> 's" where
  "replay fn [] s = ([], s)"
| "replay fn (c # cs) s =
     (let r = fn c s; w = replay fn cs (snd r) in (fst r # fst w, snd w))"

text \<open>
  The modules visible from a module, declaratively: the module itself, the modules it
  imports (all imports of a translation unit, the re-exports of any other module), and
  everything these re-export, transitively.
\<close>

definition reexports :: "ModuleStore \<Rightarrow> (ModuleRef \<times> ModuleRef) set" where
  "reexports S = {(m, m'). m' \<in> snd ` set (getImportedModules S m False)}"

definition visibleModules :: "ModuleStore \<Rightarrow> ModuleRef \<Rightarrow> ModuleRef set" where
  "visibleModules S this =
     insert this
       ((reexports S)\<^sup>* `` (snd ` set (getImportedModules S this (isTranslationUnit S this))))"

section \<open>Operator lookup\<close>

text \<open>
  Modelled from the spec: the operator table of a module object. A source unit has the
  three tables of the header (\<^verbatim>\<open>InfixOperators\<close>, \<^verbatim>\<open>PostfixOperators\<close>,
  \<^verbatim>\<open>PrefixOperators\<close>); a loaded unit delegates to its loader
  (\<^verbatim>\<open>LoadedModule::lookupOperator(name, fixity)\<close>, declared only); the built-in unit
  declares no operators.
\<close>

fun operatorsOf :: "ModuleObject \<Rightarrow> DeclKind \<Rightarrow> string \<rightharpoonup> Decl" where
  "operatorsOf (SourceUnit tu) fixity =
     (case fixity of
        PrefixOperator \<Rightarrow> PrefixOperators tu
      | InfixOperator \<Rightarrow> InfixOperators tu
      | PostfixOperator \<Rightarrow> PostfixOperators tu)"
| "operatorsOf (Builtin b) fixity = Map.empty"
| "operatorsOf (Loaded lm ims lookupOperator) fixity = lookupOperator fixity"

definition operatorTable :: "ModuleStore \<Rightarrow> ModuleRef \<Rightarrow> DeclKind \<Rightarrow> string \<rightharpoonup> Decl" where
  "operatorTable S m fixity =
     (case map_of S m of None \<Rightarrow> Map.empty | Some obj \<Rightarrow> operatorsOf obj fixity)"

text \<open>
  Modelled from the spec: the callback of the operator lookups
  (\<^verbatim>\<open>Module::lookupInfixOperator\<close>, \<^verbatim>\<open>lookupPrefixOperator\<close> and \<^verbatim>\<open>lookupPostfixOperator\<close>
  are declared only). The spec (4.2):
  search the module's own operator table of the matching fixity, then every module
  reachable through the Import Graph Walker; no table entry anywhere returns a null
  reference, a unique declaration is returned, and two distinct declarations of the same
  name return an absent optional. The callback collects the declarations it meets into a
  set (a list without repetitions); the walker starts at the module itself.
  \<^verbatim>\<open>Optional<InfixOperatorDecl *>\<close> is an option of an option: \<open>None\<close> is \<^verbatim>\<open>Nothing\<close>,
  \<open>Some nullptr\<close> the null declaration.
\<close>

definition collectOperator ::
  "ModuleStore \<Rightarrow> DeclKind \<Rightarrow> string \<Rightarrow> ImportedModule \<Rightarrow> Decl list \<Rightarrow> Decl list" where
  "collectOperator S fixity name import found =
     (case operatorTable S (snd import) fixity name of
        None \<Rightarrow> found
      | Some d \<Rightarrow> List.insert d found)"

text \<open>
  Modelled from the spec: the search that the three operator lookups share, whose code is
  outside the header: the walker runs from the module itself (under the empty top-level
  path, so that its own table is searched first) with the collecting callback, and the
  collected set decides the outcome.
\<close>

definition lookupOperatorDeclForName ::
  "ModuleStore \<Rightarrow> ModuleRef \<Rightarrow> DeclKind \<Rightarrow> string \<Rightarrow> Decl option option" where
  "lookupOperatorDeclForName S this fixity name =
     (case snd (forAllVisibleModules_void S this (Some []) (collectOperator S fixity name) []) of
        [] \<Rightarrow> Some nullptr
      | [d] \<Rightarrow> Some (Some d)
      | _ \<Rightarrow> None)"

text \<open>
  Modelled from the spec: the body of \<^verbatim>\<open>Module::lookupInfixOperator\<close> (declared only): the
  shared search at the infix fixity. \<open>diagLoc\<close> is where a diagnostic would point.
\<close>

definition lookupInfixOperator ::
  "ModuleStore \<Rightarrow> ModuleRef \<Rightarrow> string \<Rightarrow> SourceLoc \<Rightarrow> Decl option option" where
  "lookupInfixOperator S this name diagLoc = lookupOperatorDeclForName S this InfixOperator name"

text \<open>
  Modelled from the spec: the body of \<^verbatim>\<open>Module::lookupPrefixOperator\<close> (declared only): the
  shared search at the prefix fixity.
\<close>

definition lookupPrefixOperator ::
  "ModuleStore \<Rightarrow> ModuleRef \<Rightarrow> string \<Rightarrow> SourceLoc \<Rightarrow> Decl option option" where
  "lookupPrefixOperator S this name diagLoc = lookupOperatorDeclForName S this PrefixOperator name"

text \<open>
  Modelled from the spec: the body of \<^verbatim>\<open>Module::lookupPostfixOperator\<close> (declared only):
  the shared search at the postfix fixity.
\<close>

definition lookupPostfixOperator ::
  "ModuleStore \<Rightarrow> ModuleRef \<Rightarrow> string \<Rightarrow> SourceLoc \<Rightarrow> Decl option option" where
  "lookupPostfixOperator S this name diagLoc = lookupOperatorDeclForName S this PostfixOperator name"

text \<open>The operator declarations of a name and fixity in the modules visible from a module.\<close>

definition visibleOperators :: "ModuleStore \<Rightarrow> ModuleRef \<Rightarrow> DeclKind \<Rightarrow> string \<Rightarrow> Decl set" where
  "visibleOperators S this fixity name =
     {d. \<exists>m \<in> visibleModules S this. operatorTable S m fixity name = Some d}"

section \<open>Conformance lookup\<close>

type_synonym Type = nat
type_synonym ProtocolDecl = nat
type_synonym ProtocolConformance = nat
type_synonym LazyResolver = nat

text \<open>
  \<^verbatim>\<open>LookupConformanceResult\<close> is a \<^verbatim>\<open>PointerIntPair<ProtocolConformance *, 2, ConformanceKind>\<close>:
  a pointer, which may be null, and a kind.
\<close>

type_synonym LookupConformanceResult = "ProtocolConformance option \<times> ConformanceKind"

definition getPointer :: "LookupConformanceResult \<Rightarrow> ProtocolConformance option" where
  "getPointer r = fst r"

definition getInt :: "LookupConformanceResult \<Rightarrow> ConformanceKind" where
  "getInt r = snd r"

text \<open>
  Modelled from the spec: the explicit conformances a program declares, which lie outside
  the header. The spec (4.3): a declared conformance has either completed type-checking,
  and then has a concrete conformance, or has not, and then an in-progress conformance
  exists already or only the declaration of intent does. The declarations are a list
  keyed by type and protocol; the first entry of a key counts.
\<close>

datatype DeclaredConformance =
  DeclarationOfIntent
| InProgress ProtocolConformance
| Checked ProtocolConformance

type_synonym DeclaredConformances = "((Type \<times> ProtocolDecl) \<times> DeclaredConformance) list"

text \<open>
  Modelled from the spec: the body of \<^verbatim>\<open>Module::lookupConformance\<close> (declared only). The
  spec (4.3): it searches only explicit, declared conformances; if the declaring
  conformance has not completed type-checking, it returns UncheckedConforms carrying the
  in-progress conformance reference if one already exists, or none; Conforms carries the
  conformance.
\<close>

definition lookupConformance ::
  "DeclaredConformances \<Rightarrow> Type \<Rightarrow> ProtocolDecl \<Rightarrow> LazyResolver option
     \<Rightarrow> LookupConformanceResult" where
  "lookupConformance declared type protocol resolver =
     (case map_of declared (type, protocol) of
        None \<Rightarrow> (nullptr, DoesNotConform)
      | Some DeclarationOfIntent \<Rightarrow> (nullptr, UncheckedConforms)
      | Some (InProgress conformance) \<Rightarrow> (Some conformance, UncheckedConforms)
      | Some (Checked conformance) \<Rightarrow> (Some conformance, Conforms))"

section \<open>Concrete inputs\<close>

text \<open>The unit that \<^verbatim>\<open>TranslationUnit("main", component 1, context 0, Main)\<close> constructs.\<close>

definition fresh_unit :: TranslationUnit where
  "fresh_unit =
     \<lparr>Kind = TranslationUnit, LookupCachePimpl = nullptr, Comp = Some 1, Ctx = 0,
      Name = ''main'', ASTStage = Parsing,
      Imports = [], LinkLibraries = [],
      ImportBufferID = - 1, TU_Kind = Main, HasBuiltinModuleAccess = False, Decls = [],
      InfixOperators = Map.empty, PostfixOperators = Map.empty,
      PrefixOperators = Map.empty\<rparr>"

text \<open>A unit with one import, of a given role and at a given stage.\<close>

definition example_unit :: "TUKind \<Rightarrow> ASTStage_t \<Rightarrow> TranslationUnit" where
  "example_unit kind stage =
     fresh_unit\<lparr>ASTStage := stage, TU_Kind := kind,
       Imports := [(([(''Foundation'', 3)], 2), True)]\<rparr>"

text \<open>
  Modules 1 and 2 re-export each other; module 1 imports module 2 under two different
  access paths.
\<close>

definition cyclic_store :: ModuleStore where
  "cyclic_store =
     [(1, SourceUnit (fresh_unit\<lparr>Imports :=
            [(([(''B'', 1)], 2), True), (([(''B'', 9), (''sub'', 10)], 2), True)]\<rparr>)),
      (2, SourceUnit (fresh_unit\<lparr>Imports := [(([(''A'', 7)], 1), True)]\<rparr>))]"

text \<open>
  Module 3 imports and re-exports modules 4 and 2; module 4 (a source unit) declares the
  infix operators \<open>+\<close> and \<open>*\<close>, module 2 (a loaded module) another infix \<open>+\<close>.
\<close>

definition operator_store :: ModuleStore where
  "operator_store =
     [(4, SourceUnit (fresh_unit\<lparr>ASTStage := NameBound,
            InfixOperators := [''+'' \<mapsto> 10, ''*'' \<mapsto> 11]\<rparr>)),
      (2, Loaded \<lparr>Kind = SerializedModule, LookupCachePimpl = Some 5, Comp = Some 1, Ctx = 0,
                 Name = ''lib'', ASTStage = TypeChecked, DebugModuleName = ''lib''\<rparr> []
            (\<lambda>fixity. if fixity = InfixOperator then [''+'' \<mapsto> 20] else Map.empty)),
      (3, SourceUnit (fresh_unit\<lparr>ASTStage := NameBound,
            Imports := [(([(''A'', 1)], 4), True), (([(''B'', 2)], 2), True)]\<rparr>))]"

text \<open>
  Type 1 has a checked conformance to protocol 7, an in-progress one to protocol 8 and a
  declaration of intent for protocol 9; nothing is declared for protocol 6.
\<close>

definition example_conformances :: DeclaredConformances where
  "example_conformances =
     [((1, 7), Checked 70), ((1, 8), InProgress 80), ((1, 9), DeclarationOfIntent)]"

section \<open>Properties of the setters\<close>

lemma apply_setter_LinkLibraries:
  "LinkLibraries tu \<noteq> [] \<Longrightarrow> apply_setter tu s = Inr tu' \<Longrightarrow>
   LinkLibraries tu' = LinkLibraries tu \<and> (\<forall>libs. s \<noteq> SetLinkLibraries libs)"
  by (cases s) (auto simp: setImports_def setLinkLibraries_def setImportBufferID_def
      split: if_splits)

lemma apply_setters_LinkLibraries:
  "LinkLibraries tu \<noteq> [] \<Longrightarrow> apply_setters tu ss = Inr tu' \<Longrightarrow>
   LinkLibraries tu' = LinkLibraries tu \<and> (\<forall>libs. SetLinkLibraries libs \<notin> set ss)"
proof (induction ss arbitrary: tu)
  case Nil
  then show ?case by simp
next
  case (Cons s ss)
  from Cons.prems(2) obtain tu1 where s1: "apply_setter tu s = Inr tu1"
    and rest: "apply_setters tu1 ss = Inr tu'"
    by (auto split: sum.splits)
  from apply_setter_LinkLibraries [OF Cons.prems(1) s1]
  have keep: "LinkLibraries tu1 = LinkLibraries tu" and s_other: "\<forall>libs. s \<noteq> SetLinkLibraries libs"
    by simp_all
  from keep Cons.prems(1) have "LinkLibraries tu1 \<noteq> []" by simp
  from Cons.IH [OF this rest] keep s_other show ?case by auto
qed

lemma apply_setter_ImportBufferID:
  "ImportBufferID tu \<noteq> - 1 \<Longrightarrow> apply_setter tu s = Inr tu' \<Longrightarrow>
   ImportBufferID tu' = ImportBufferID tu \<and> (\<forall>b. s \<noteq> SetImportBufferID b)"
  by (cases s) (auto simp: setImports_def setLinkLibraries_def setImportBufferID_def
      split: if_splits)

lemma apply_setters_ImportBufferID:
  "ImportBufferID tu \<noteq> - 1 \<Longrightarrow> apply_setters tu ss = Inr tu' \<Longrightarrow>
   ImportBufferID tu' = ImportBufferID tu \<and> (\<forall>b. SetImportBufferID b \<notin> set ss)"
proof (induction ss arbitrary: tu)
  case Nil
  then show ?case by simp
next
  case (Cons s ss)
  from Cons.prems(2) obtain tu1 where s1: "apply_setter tu s = Inr tu1"
    and rest: "apply_setters tu1 ss = Inr tu'"
    by (auto split: sum.splits)
  from apply_setter_ImportBufferID [OF Cons.prems(1) s1]
  have keep: "ImportBufferID tu1 = ImportBufferID tu" and s_other: "\<forall>b. s \<noteq> SetImportBufferID b"
    by simp_all
  from keep Cons.prems(1) have "ImportBufferID tu1 \<noteq> - 1" by simp
  from Cons.IH [OF this rest] keep s_other show ?case by auto
qed

section \<open>Properties of the import graph walker\<close>

lemma isSameAccessPath_identifiers:
  "isSameAccessPath lhs rhs \<longleftrightarrow> map fst lhs = map fst rhs"
  by (induction lhs rhs rule: isSameAccessPath.induct) auto

text \<open>The walker never calls the visitor on a module of the visited-set.\<close>

lemma walk_fresh:
  "c \<in> set (fst (walk S fn queue visited s)) \<Longrightarrow> snd (fst c) \<notin> set visited"
  by (induction S fn queue visited s rule: walk.induct)
     (auto simp: Let_def split: if_splits)

lemma walk_distinct:
  "distinct (map (\<lambda>c. snd (fst c)) (fst (walk S fn queue visited s)))"
proof (induction S fn queue visited s rule: walk.induct)
  case (1 S fn visited s)
  show ?case by simp
next
  case (2 S fn "next" queue visited s)
  show ?case
  proof (cases "snd next \<in> set visited")
    case True
    with 2 show ?thesis by simp
  next
    case False
    show ?thesis
    proof (cases "fst (fn next s)")
      case continue: True
      let ?w = "walk S fn (getImportedModules S (snd next) False @ queue)
          (snd next # visited) (snd (fn next s))"
      from 2(2) [OF False refl continue]
      have d: "distinct (map (\<lambda>c. snd (fst c)) (fst ?w))" .
      have "snd next \<notin> (\<lambda>c. snd (fst c)) ` set (fst ?w)"
        using walk_fresh [of _ S fn _ "snd next # visited"] by fastforce
      with d False continue show ?thesis by (simp add: Let_def)
    next
      case abort: False
      with False show ?thesis by (simp add: Let_def)
    qed
  qed
qed

lemma walk_stops_at_abort:
  "list_all snd (butlast (fst (walk S fn queue visited s)))"
  by (induction S fn queue visited s rule: walk.induct) (auto simp: Let_def)

lemma walk_within_store:
  "c \<in> set (fst (walk S fn queue visited s)) \<Longrightarrow>
   snd (fst c) \<in> importTargets S \<union> snd ` set queue"
proof (induction S fn queue visited s rule: walk.induct)
  case (1 S fn visited s)
  then show ?case by simp
next
  case (2 S fn "next" queue visited s)
  show ?case
  proof (cases "snd next \<in> set visited")
    case True
    with 2 show ?thesis by auto
  next
    case False
    show ?thesis
    proof (cases "fst (fn next s)")
      case continue: True
      let ?w = "walk S fn (getImportedModules S (snd next) False @ queue)
          (snd next # visited) (snd (fn next s))"
      from "2.prems" False continue have "c = (next, True) \<or> c \<in> set (fst ?w)"
        by (simp add: Let_def)
      then show ?thesis
      proof
        assume "c = (next, True)"
        then show ?thesis by simp
      next
        assume "c \<in> set (fst ?w)"
        from 2(2) [OF False refl continue this]
        show ?thesis
          using getImportedModules_targets [of S "snd next" False] by auto
      qed
    next
      case abort: False
      with "2.prems" False show ?thesis by (simp add: Let_def)
    qed
  qed
qed

lemma walk_replay:
  "replay fn (map fst (fst (walk S fn queue visited s))) s =
   (map snd (fst (walk S fn queue visited s)), snd (walk S fn queue visited s))"
  by (induction S fn queue visited s rule: walk.induct) (auto simp: Let_def)

lemma walk_length:
  assumes "snd ` set queue \<subseteq> importTargets S"
  shows "length (fst (walk S fn queue visited s)) \<le> card (importTargets S)"
proof -
  let ?ms = "map (\<lambda>c. snd (fst c)) (fst (walk S fn queue visited s))"
  have "set ?ms \<subseteq> importTargets S"
  proof
    fix m assume "m \<in> set ?ms"
    then obtain c where "c \<in> set (fst (walk S fn queue visited s))" "m = snd (fst c)"
      by auto
    with walk_within_store [of c S fn queue visited s] assms
    show "m \<in> importTargets S" by blast
  qed
  then have "card (set ?ms) \<le> card (importTargets S)"
    by (rule card_mono [OF finite_importTargets])
  moreover have "card (set ?ms) = length ?ms"
    by (rule distinct_card [OF walk_distinct])
  ultimately show ?thesis by simp
qed

lemma forAllVisibleModules_replay:
  "replay fn (map fst (fst (forAllVisibleModules S this path fn s))) s =
     (map snd (fst (forAllVisibleModules S this path fn s)),
      snd (forAllVisibleModules S this path fn s))"
  using walk_replay [of fn S "getImportedModules S this (isTranslationUnit S this)" "[this]"]
  by (cases path) (simp_all add: forAllVisibleModules_def Let_def)

text \<open>A visitor that never aborts is called on exactly the visible modules.\<close>

lemma walk_covers_queue:
  "\<forall>im s. fst (fn im s) \<Longrightarrow>
   snd ` set queue \<subseteq> set visited \<union> (\<lambda>c. snd (fst c)) ` set (fst (walk S fn queue visited s))"
proof (induction S fn queue visited s rule: walk.induct)
  case (1 S fn visited s)
  show ?case by simp
next
  case (2 S fn "next" queue visited s)
  show ?case
  proof (cases "snd next \<in> set visited")
    case True
    with 2 show ?thesis by simp
  next
    case False
    from "2.prems" have continue: "fst (fn next s)" by blast
    from 2(2) [OF False refl continue "2.prems"] False continue
    show ?thesis by (auto simp: Let_def)
  qed
qed

lemma walk_closed:
  "\<forall>im s. fst (fn im s) \<Longrightarrow>
   c \<in> set (fst (walk S fn queue visited s)) \<Longrightarrow>
   snd ` set (getImportedModules S (snd (fst c)) False)
     \<subseteq> set visited \<union> (\<lambda>c. snd (fst c)) ` set (fst (walk S fn queue visited s))"
proof (induction S fn queue visited s rule: walk.induct)
  case (1 S fn visited s)
  then show ?case by simp
next
  case (2 S fn "next" queue visited s)
  show ?case
  proof (cases "snd next \<in> set visited")
    case True
    with 2 show ?thesis by simp
  next
    case False
    from "2.prems"(1) have continue: "fst (fn next s)" by blast
    let ?w = "walk S fn (getImportedModules S (snd next) False @ queue)
        (snd next # visited) (snd (fn next s))"
    have result: "fst (walk S fn (next # queue) visited s) = (next, True) # fst ?w"
      using False continue by (simp add: Let_def)
    from "2.prems"(2) result have "c = (next, True) \<or> c \<in> set (fst ?w)" by simp
    then show ?thesis
    proof
      assume c: "c = (next, True)"
      have "snd ` set (getImportedModules S (snd next) False @ queue)
          \<subseteq> set (snd next # visited) \<union> (\<lambda>c. snd (fst c)) ` set (fst ?w)"
        by (rule walk_covers_queue [OF "2.prems"(1)])
      with c result show ?thesis by auto
    next
      assume "c \<in> set (fst ?w)"
      from 2(2) [OF False refl continue "2.prems"(1) this] result
      show ?thesis by auto
    qed
  qed
qed

lemma walk_reachable:
  "c \<in> set (fst (walk S fn queue visited s)) \<Longrightarrow>
   snd (fst c) \<in> (reexports S)\<^sup>* `` (snd ` set queue)"
proof (induction S fn queue visited s rule: walk.induct)
  case (1 S fn visited s)
  then show ?case by simp
next
  case (2 S fn "next" queue visited s)
  show ?case
  proof (cases "snd next \<in> set visited")
    case True
    with 2 show ?thesis by auto
  next
    case False
    show ?thesis
    proof (cases "fst (fn next s)")
      case continue: True
      let ?w = "walk S fn (getImportedModules S (snd next) False @ queue)
          (snd next # visited) (snd (fn next s))"
      from "2.prems" False continue have "c = (next, True) \<or> c \<in> set (fst ?w)"
        by (simp add: Let_def)
      then show ?thesis
      proof
        assume "c = (next, True)"
        then show ?thesis by auto
      next
        assume "c \<in> set (fst ?w)"
        from 2(2) [OF False refl continue this]
        obtain q where q: "q \<in> snd ` set (getImportedModules S (snd next) False @ queue)"
          and path: "(q, snd (fst c)) \<in> (reexports S)\<^sup>*"
          by auto
        show ?thesis
        proof (cases "q \<in> snd ` set queue")
          case True
          with path show ?thesis by auto
        next
          case False
          with q have "(snd next, q) \<in> reexports S"
            by (auto simp: reexports_def)
          then have "(snd next, snd (fst c)) \<in> (reexports S)\<^sup>*"
            using path by (rule converse_rtrancl_into_rtrancl)
          then show ?thesis by auto
        qed
      qed
    next
      case abort: False
      with "2.prems" False show ?thesis by (auto simp: Let_def)
    qed
  qed
qed

lemma reexports_within_imports:
  "set (getImportedModules S m False) \<subseteq> set (getImportedModules S m b)"
  by (auto simp: getImportedModules_def split: option.splits)

lemma forAllVisibleModules_visits_visible:
  assumes continue: "\<forall>im s. fst (fn im s)"
  shows "(\<lambda>c. snd (fst c)) ` set (fst (forAllVisibleModules S this (Some p) fn s))
         = visibleModules S this"
proof -
  let ?q = "getImportedModules S this (isTranslationUnit S this)"
  let ?w = "walk S fn ?q [this] (snd (fn (p, this) s))"
  let ?T = "(\<lambda>c. snd (fst c)) ` set (fst ?w)"
  have trace: "(\<lambda>c. snd (fst c)) ` set (fst (forAllVisibleModules S this (Some p) fn s))
      = insert this ?T"
    using continue by (simp add: forAllVisibleModules_def Let_def)
  have sound: "?T \<subseteq> (reexports S)\<^sup>* `` (snd ` set ?q)"
    using walk_reachable [of _ S fn ?q "[this]"] by blast
  have seeds: "snd ` set ?q \<subseteq> insert this ?T"
    using walk_covers_queue [OF continue, of ?q "[this]" S] by auto
  have closed: "m' \<in> insert this ?T" if m: "m \<in> insert this ?T" and e: "(m, m') \<in> reexports S"
    for m m'
  proof (cases "m = this")
    case True
    with e have "m' \<in> snd ` set (getImportedModules S this False)"
      by (simp add: reexports_def)
    with reexports_within_imports [of S this] have "m' \<in> snd ` set ?q" by blast
    with seeds show ?thesis by blast
  next
    case False
    with m obtain c where c: "c \<in> set (fst ?w)" and mc: "m = snd (fst c)" by auto
    from walk_closed [OF continue c] e mc show ?thesis
      by (auto simp: reexports_def)
  qed
  have complete: "(reexports S)\<^sup>* `` (snd ` set ?q) \<subseteq> insert this ?T"
  proof
    fix m assume "m \<in> (reexports S)\<^sup>* `` (snd ` set ?q)"
    then obtain q where q: "q \<in> snd ` set ?q" and path: "(q, m) \<in> (reexports S)\<^sup>*"
      by auto
    from path show "m \<in> insert this ?T"
    proof (induction rule: rtrancl_induct)
      case base
      from q seeds show ?case by blast
    next
      case (step y z)
      from closed [OF step.IH step.hyps(2)] show ?case .
    qed
  qed
  from trace sound complete show ?thesis
    unfolding visibleModules_def by blast
qed


section \<open>Properties of operator lookup\<close>

lemma replay_collect_set:
  "set (snd (replay (\<lambda>import s. (True, collectOperator S fixity name import s)) ims found)) =
   set found \<union> {d. \<exists>im \<in> set ims. operatorTable S (snd im) fixity name = Some d}"
  by (induction ims arbitrary: found)
     (auto simp: Let_def collectOperator_def split: option.splits)

lemma replay_collect_distinct:
  "distinct found \<Longrightarrow>
   distinct (snd (replay (\<lambda>import s. (True, collectOperator S fixity name import s)) ims found))"
  by (induction ims arbitrary: found)
     (auto simp: Let_def collectOperator_def split: option.splits)

lemma collected_operators:
  "set (snd (forAllVisibleModules_void S this (Some []) (collectOperator S fixity name) []))
     = visibleOperators S this fixity name \<and>
   distinct (snd (forAllVisibleModules_void S this (Some []) (collectOperator S fixity name) []))"
proof -
  let ?fn = "\<lambda>import s. (True, collectOperator S fixity name import s)"
  let ?r = "forAllVisibleModules S this (Some []) ?fn []"
  have continue: "\<forall>im s. fst (?fn im s)"
    by simp
  have final: "snd ?r = snd (replay ?fn (map fst (fst ?r)) [])"
    by (simp add: forAllVisibleModules_replay)
  have visited: "(\<lambda>c. snd (fst c)) ` set (fst ?r) = visibleModules S this"
    by (rule forAllVisibleModules_visits_visible [OF continue])
  have "set (snd ?r) = {d. \<exists>im \<in> set (map fst (fst ?r)). operatorTable S (snd im) fixity name = Some d}"
    by (subst final) (simp add: replay_collect_set)
  also have "\<dots> = {d. \<exists>m \<in> (\<lambda>c. snd (fst c)) ` set (fst ?r). operatorTable S m fixity name = Some d}"
    by auto
  also have "\<dots> = visibleOperators S this fixity name"
    by (simp only: visited visibleOperators_def)
  finally have "set (snd ?r) = visibleOperators S this fixity name" .
  moreover have "distinct (snd ?r)"
    by (subst final) (simp add: replay_collect_distinct)
  ultimately show ?thesis by (simp add: forAllVisibleModules_void_def)
qed

lemma lookupOperatorDeclForName_tristate:
  "(visibleOperators S this fixity name = {} \<longrightarrow>
      lookupOperatorDeclForName S this fixity name = Some nullptr) \<and>
   (visibleOperators S this fixity name = {d} \<longrightarrow>
      lookupOperatorDeclForName S this fixity name = Some (Some d)) \<and>
   (d1 \<in> visibleOperators S this fixity name \<and> d2 \<in> visibleOperators S this fixity name \<and>
    d1 \<noteq> d2 \<longrightarrow> lookupOperatorDeclForName S this fixity name = None)"
proof -
  let ?found = "snd (forAllVisibleModules_void S this (Some []) (collectOperator S fixity name) [])"
  from collected_operators [of S this fixity name]
  have s: "set ?found = visibleOperators S this fixity name" and d: "distinct ?found"
    by simp_all
  show ?thesis
  proof (cases ?found)
    case Nil
    with s show ?thesis by (auto simp: lookupOperatorDeclForName_def)
  next
    case (Cons x xs)
    note outer = Cons
    show ?thesis
    proof (cases xs)
      case Nil
      with outer s have single: "visibleOperators S this fixity name = {x}" by auto
      from outer Nil have "lookupOperatorDeclForName S this fixity name = Some (Some x)"
        by (simp add: lookupOperatorDeclForName_def)
      with single show ?thesis by auto
    next
      case (Cons y ys)
      with outer d have "x \<noteq> y" by auto
      moreover from Cons outer s have "x \<in> visibleOperators S this fixity name"
        "y \<in> visibleOperators S this fixity name" by auto
      ultimately have "visibleOperators S this fixity name \<noteq> {}"
        "visibleOperators S this fixity name \<noteq> {d}" by auto
      with Cons outer show ?thesis by (simp add: lookupOperatorDeclForName_def)
    qed
  qed
qed

section \<open>The claims\<close>

subsection \<open>C1: write-once fields\<close>

text \<open>
  C1, as the code has it. \<^verbatim>\<open>setImports\<close> carries no assertion: it never fails and
  replaces the stored imports. \<^verbatim>\<open>setLinkLibraries\<close> asserts that the stored list is empty
  and \<^verbatim>\<open>setImportBufferID\<close> that the stored id is \<open>-1\<close>: each fails when its assertion
  does not hold and stores its argument when it does. Hence, after a successful
  \<^verbatim>\<open>setLinkLibraries\<close> with a non-empty list, a second call fails, any run of further
  setter calls that succeeds holds no \<^verbatim>\<open>setLinkLibraries\<close> call, and the stored list is
  still the one set first; likewise after a successful \<^verbatim>\<open>setImportBufferID\<close> with an id
  other than the bit pattern of \<open>-1\<close>.
\<close>

theorem write_once_fields:
  "setImports tu IM = Inr (tu\<lparr>Imports := IM\<rparr>) \<and>
   (LinkLibraries tu \<noteq> [] \<longrightarrow> setLinkLibraries tu libs = Inl AssertionFailure) \<and>
   (LinkLibraries tu = [] \<longrightarrow> setLinkLibraries tu libs = Inr (tu\<lparr>LinkLibraries := libs\<rparr>)) \<and>
   (setLinkLibraries tu libs = Inr tu1 \<and> libs \<noteq> [] \<longrightarrow>
      setLinkLibraries tu1 libs' = Inl AssertionFailure \<and>
      (apply_setters tu1 ss = Inr tu' \<longrightarrow>
         getLinkLibraries tu' = libs \<and> (\<forall>l. SetLinkLibraries l \<notin> set ss))) \<and>
   (ImportBufferID tu \<noteq> - 1 \<longrightarrow> setImportBufferID tu BufID = Inl AssertionFailure) \<and>
   (ImportBufferID tu = - 1 \<longrightarrow>
      setImportBufferID tu BufID = Inr (tu\<lparr>ImportBufferID := BufID\<rparr>)) \<and>
   (setImportBufferID tu BufID = Inr tu2 \<and> BufID \<noteq> - 1 \<longrightarrow>
      setImportBufferID tu2 BufID' = Inl AssertionFailure \<and>
      (apply_setters tu2 ss = Inr tu'' \<longrightarrow>
         getImportBufferID tu'' = sint BufID \<and> (\<forall>b. SetImportBufferID b \<notin> set ss)))"
proof -
  have imps: "setImports tu IM = Inr (tu\<lparr>Imports := IM\<rparr>)"
    by (simp add: setImports_def)
  have libs_guard: "LinkLibraries tu \<noteq> [] \<longrightarrow> setLinkLibraries tu libs = Inl AssertionFailure"
    "LinkLibraries tu = [] \<longrightarrow> setLinkLibraries tu libs = Inr (tu\<lparr>LinkLibraries := libs\<rparr>)"
    by (simp_all add: setLinkLibraries_def)
  have buf_guard: "ImportBufferID tu \<noteq> - 1 \<longrightarrow> setImportBufferID tu BufID = Inl AssertionFailure"
    "ImportBufferID tu = - 1 \<longrightarrow> setImportBufferID tu BufID = Inr (tu\<lparr>ImportBufferID := BufID\<rparr>)"
    by (simp_all add: setImportBufferID_def)
  have libs_once: "setLinkLibraries tu1 libs' = Inl AssertionFailure \<and>
      (apply_setters tu1 ss = Inr tu' \<longrightarrow>
         getLinkLibraries tu' = libs \<and> (\<forall>l. SetLinkLibraries l \<notin> set ss))"
    if "setLinkLibraries tu libs = Inr tu1" "libs \<noteq> []"
  proof -
    from that have stored: "LinkLibraries tu1 = libs" "LinkLibraries tu1 \<noteq> []"
      by (auto simp: setLinkLibraries_def split: if_splits)
    then show ?thesis
      using apply_setters_LinkLibraries [of tu1 ss tu']
      by (auto simp: setLinkLibraries_def getLinkLibraries_def)
  qed
  have buf_once: "setImportBufferID tu2 BufID' = Inl AssertionFailure \<and>
      (apply_setters tu2 ss = Inr tu'' \<longrightarrow>
         getImportBufferID tu'' = sint BufID \<and> (\<forall>b. SetImportBufferID b \<notin> set ss))"
    if "setImportBufferID tu BufID = Inr tu2" "BufID \<noteq> - 1"
  proof -
    from that have stored: "ImportBufferID tu2 = BufID" "ImportBufferID tu2 \<noteq> - 1"
      by (auto simp: setImportBufferID_def split: if_splits)
    then show ?thesis
      using apply_setters_ImportBufferID [of tu2 ss tu'']
      by (auto simp: setImportBufferID_def getImportBufferID_def)
  qed
  from imps libs_guard buf_guard libs_once buf_once show ?thesis by blast
qed

theorem write_once_fields_witness:
  "setImports fresh_unit [(([(''Foundation'', 3)], 2), True)] =
     Inr (fresh_unit\<lparr>Imports := [(([(''Foundation'', 3)], 2), True)]\<rparr>) \<and>
   setLinkLibraries fresh_unit [''z''] = Inr (fresh_unit\<lparr>LinkLibraries := [''z'']\<rparr>) \<and>
   setLinkLibraries (fresh_unit\<lparr>LinkLibraries := [''z'']\<rparr>) [''m''] = Inl AssertionFailure \<and>
   apply_setters (fresh_unit\<lparr>LinkLibraries := [''z'']\<rparr>) [SetImports []] =
     Inr (fresh_unit\<lparr>LinkLibraries := [''z''], Imports := []\<rparr>) \<and>
   getLinkLibraries (fresh_unit\<lparr>LinkLibraries := [''z''], Imports := []\<rparr>) = [''z''] \<and>
   setImportBufferID fresh_unit 7 = Inr (fresh_unit\<lparr>ImportBufferID := 7\<rparr>) \<and>
   setImportBufferID (fresh_unit\<lparr>ImportBufferID := 7\<rparr>) 8 = Inl AssertionFailure \<and>
   apply_setters (fresh_unit\<lparr>ImportBufferID := 7\<rparr>) [SetImports []] =
     Inr (fresh_unit\<lparr>ImportBufferID := 7, Imports := []\<rparr>) \<and>
   getImportBufferID (fresh_unit\<lparr>ImportBufferID := 7, Imports := []\<rparr>) = 7"
  using write_once_fields [of fresh_unit "[(([(''Foundation'', 3)], 2), True)]" "[''z'']"
      "fresh_unit\<lparr>LinkLibraries := [''z'']\<rparr>" "[''m'']" "[SetImports []]"
      "fresh_unit\<lparr>LinkLibraries := [''z''], Imports := []\<rparr>" 7
      "fresh_unit\<lparr>ImportBufferID := 7\<rparr>" 8
      "fresh_unit\<lparr>ImportBufferID := 7, Imports := []\<rparr>"]
  by (simp add: fresh_unit_def setLinkLibraries_def setImportBufferID_def setImports_def)

text \<open>
  The claim as stated fails on the unit that the constructor returns: a second
  \<^verbatim>\<open>setImports\<close> succeeds and replaces the imports set first; after a successful
  \<^verbatim>\<open>setLinkLibraries\<close> with the empty list a second call succeeds; and after a successful
  \<^verbatim>\<open>setImportBufferID(0xFFFFFFFF)\<close> a second call succeeds.
\<close>

theorem write_once_fields_counterexample:
  "TranslationUnit_ctor ''main'' (Some 1) 0 Main = Inr fresh_unit \<and>
   setImports fresh_unit [(([(''Foundation'', 3)], 2), True)] =
     Inr (fresh_unit\<lparr>Imports := [(([(''Foundation'', 3)], 2), True)]\<rparr>) \<and>
   setImports (fresh_unit\<lparr>Imports := [(([(''Foundation'', 3)], 2), True)]\<rparr>) [] =
     Inr (fresh_unit\<lparr>Imports := []\<rparr>) \<and>
   Imports (fresh_unit\<lparr>Imports := []\<rparr>) \<noteq> [(([(''Foundation'', 3)], 2), True)] \<and>
   setLinkLibraries fresh_unit [] = Inr fresh_unit \<and>
   setLinkLibraries fresh_unit [''z''] = Inr (fresh_unit\<lparr>LinkLibraries := [''z'']\<rparr>) \<and>
   setImportBufferID fresh_unit 0xFFFFFFFF = Inr fresh_unit \<and>
   setImportBufferID fresh_unit 7 = Inr (fresh_unit\<lparr>ImportBufferID := 7\<rparr>)"
  by (simp add: fresh_unit_def TranslationUnit_ctor_def Module_ctor_def setImports_def
      setLinkLibraries_def setImportBufferID_def)

subsection \<open>C2: the stage after construction\<close>

text \<open>
  C2. A translation unit is constructed whenever its component is not null, and a
  constructed unit is at stage Parsing. The built-in module is always constructed, at
  stage TypeChecked. A loaded module is constructed whenever its component is not null,
  and a constructed loaded module is at stage TypeChecked and \<^verbatim>\<open>getOwner\<close> returns the
  module loader it was constructed with.
\<close>

theorem construction_stage:
  "(component \<noteq> nullptr \<longrightarrow> (\<exists>tu. TranslationUnit_ctor name component ctx kind = Inr tu)) \<and>
   (TranslationUnit_ctor name component ctx kind = Inr tu \<longrightarrow> ASTStage tu = Parsing) \<and>
   (\<exists>b. BuiltinModule_ctor name ctx = Inr b \<and> ASTStage b = TypeChecked) \<and>
   (component \<noteq> nullptr \<longrightarrow>
      (\<exists>lm. LoadedModule_ctor mkind name dbg component ctx owner = Inr lm)) \<and>
   (LoadedModule_ctor mkind name dbg component ctx owner = Inr lm \<longrightarrow>
      ASTStage lm = TypeChecked \<and> getOwner lm = Inr owner)"
  by (auto simp: TranslationUnit_ctor_def BuiltinModule_ctor_def LoadedModule_ctor_def
      Module_ctor_def getOwner_def split: if_splits)

theorem construction_stage_witness:
  "(\<exists>tu. TranslationUnit_ctor ''main'' (Some 1) 0 Main = Inr tu \<and> ASTStage tu = Parsing) \<and>
   (\<exists>b. BuiltinModule_ctor ''Builtin'' 0 = Inr b \<and> ASTStage b = TypeChecked) \<and>
   (\<exists>lm. LoadedModule_ctor SerializedModule ''swift'' ''swift'' (Some 1) 0 5 = Inr lm \<and>
      ASTStage lm = TypeChecked \<and> getOwner lm = Inr 5)"
  using construction_stage [of "Some 1" "''main''" 0 Main]
    construction_stage [of "Some 1" "''Builtin''" 0]
    construction_stage [of "Some 1" "''swift''" 0 _ _ SerializedModule "''swift''" 5]
  by (simp add: TranslationUnit_ctor_def LoadedModule_ctor_def Module_ctor_def)

subsection \<open>C3: the guard of getImports\<close>

text \<open>
  C3. \<^verbatim>\<open>getImports\<close> fails when the unit's stage is below Parsed and its role is not SIL;
  for a unit of role SIL it returns the stored imports at any stage, and so it does for
  any unit whose stage is at least Parsed.
\<close>

theorem getImports_guard:
  "(\<not> ASTStage_value Parsed \<le> ASTStage_value (ASTStage tu) \<and> TU_Kind tu \<noteq> SIL \<longrightarrow>
      getImports tu = Inl AssertionFailure) \<and>
   (TU_Kind tu = SIL \<longrightarrow> getImports tu = Inr (Imports tu)) \<and>
   (ASTStage_value Parsed \<le> ASTStage_value (ASTStage tu) \<longrightarrow>
      getImports tu = Inr (Imports tu))"
  by (simp add: getImports_def)

theorem getImports_guard_witness:
  "getImports (example_unit Library Parsing) = Inl AssertionFailure \<and>
   getImports (example_unit SIL Parsing) = Inr [(([(''Foundation'', 3)], 2), True)] \<and>
   getImports (example_unit Library Parsed) = Inr [(([(''Foundation'', 3)], 2), True)]"
  using getImports_guard [of "example_unit Library Parsing"]
    getImports_guard [of "example_unit SIL Parsing"]
    getImports_guard [of "example_unit Library Parsed"]
  by (simp add: example_unit_def fresh_unit_def)

subsection \<open>C4: equality of access paths\<close>

text \<open>
  C4. \<^verbatim>\<open>isSameAccessPath\<close> is true exactly when the two paths have the same sequence of
  identifiers, whatever their source positions; paths of different lengths are never the
  same. \<^verbatim>\<open>DenseMapInfo<ImportedModule>::isEqual\<close> is true exactly when the modules are the
  same and the paths have the same sequence of identifiers.
\<close>

theorem access_path_equality:
  "(isSameAccessPath lhs rhs \<longleftrightarrow> map fst lhs = map fst rhs) \<and>
   (length lhs \<noteq> length rhs \<longrightarrow> \<not> isSameAccessPath lhs rhs) \<and>
   (isEqual (lhs, m) (rhs, m') \<longleftrightarrow> m = m' \<and> map fst lhs = map fst rhs)"
proof -
  have same: "isSameAccessPath lhs rhs \<longleftrightarrow> map fst lhs = map fst rhs"
    by (rule isSameAccessPath_identifiers)
  have len: "length lhs = length rhs" if "map fst lhs = map fst rhs"
    using that by (rule map_eq_imp_length_eq)
  from same len show ?thesis
    by (auto simp: isEqual_def)
qed

theorem access_path_equality_witness:
  "isSameAccessPath [(''Foo'', 1), (''Bar'', 5)] [(''Foo'', 20), (''Bar'', 24)] \<and>
   \<not> isSameAccessPath [(''Foo'', 1), (''Bar'', 5)] [(''Foo'', 1), (''Baz'', 5)] \<and>
   \<not> isSameAccessPath [(''Foo'', 1)] [(''Foo'', 1), (''Bar'', 5)] \<and>
   \<not> isSameAccessPath [(''Foo'', 1)] [] \<and>
   isEqual ([(''Foo'', 1)], 2) ([(''Foo'', 9)], 2) \<and>
   \<not> isEqual ([(''Foo'', 1)], 2) ([(''Foo'', 1)], 3)"
  using access_path_equality [of "[(''Foo'', 1), (''Bar'', 5)]" "[(''Foo'', 20), (''Bar'', 24)]" 2 2]
    access_path_equality [of "[(''Foo'', 1), (''Bar'', 5)]" "[(''Foo'', 1), (''Baz'', 5)]" 2 2]
    access_path_equality [of "[(''Foo'', 1)]" "[(''Foo'', 1), (''Bar'', 5)]" 2 2]
    access_path_equality [of "[(''Foo'', 1)]" "[]" 2 2]
    access_path_equality [of "[(''Foo'', 1)]" "[(''Foo'', 9)]" 2 2]
    access_path_equality [of "[(''Foo'', 1)]" "[(''Foo'', 1)]" 2 3]
  by simp

subsection \<open>C5: the three outcomes of operator lookup\<close>

text \<open>
  C5. For each of \<^verbatim>\<open>lookupInfixOperator\<close>, \<^verbatim>\<open>lookupPrefixOperator\<close> and
  \<^verbatim>\<open>lookupPostfixOperator\<close>, on a module at any stage (NameBound in particular): when no
  module visible from it declares an operator of that name and fixity, the result is a
  present optional holding the null declaration; when the visible modules declare exactly
  one, the result is a present optional holding it; when they declare two distinct ones,
  the result is the absent optional. A present optional is never the absent one, so the
  caller can tell not-found from ambiguous.
\<close>

theorem operator_lookup_tristate:
  "(visibleOperators S this InfixOperator name = {} \<longrightarrow>
      lookupInfixOperator S this name diagLoc = Some nullptr) \<and>
   (visibleOperators S this InfixOperator name = {d} \<longrightarrow>
      lookupInfixOperator S this name diagLoc = Some (Some d)) \<and>
   (d1 \<in> visibleOperators S this InfixOperator name \<and>
    d2 \<in> visibleOperators S this InfixOperator name \<and> d1 \<noteq> d2 \<longrightarrow>
      lookupInfixOperator S this name diagLoc = None) \<and>
   (visibleOperators S this PrefixOperator name = {} \<longrightarrow>
      lookupPrefixOperator S this name diagLoc = Some nullptr) \<and>
   (visibleOperators S this PrefixOperator name = {d} \<longrightarrow>
      lookupPrefixOperator S this name diagLoc = Some (Some d)) \<and>
   (d1 \<in> visibleOperators S this PrefixOperator name \<and>
    d2 \<in> visibleOperators S this PrefixOperator name \<and> d1 \<noteq> d2 \<longrightarrow>
      lookupPrefixOperator S this name diagLoc = None) \<and>
   (visibleOperators S this PostfixOperator name = {} \<longrightarrow>
      lookupPostfixOperator S this name diagLoc = Some nullptr) \<and>
   (visibleOperators S this PostfixOperator name = {d} \<longrightarrow>
      lookupPostfixOperator S this name diagLoc = Some (Some d)) \<and>
   (d1 \<in> visibleOperators S this PostfixOperator name \<and>
    d2 \<in> visibleOperators S this PostfixOperator name \<and> d1 \<noteq> d2 \<longrightarrow>
      lookupPostfixOperator S this name diagLoc = None) \<and>
   Some (nullptr :: Decl option) \<noteq> None"
  unfolding lookupInfixOperator_def lookupPrefixOperator_def lookupPostfixOperator_def
  using lookupOperatorDeclForName_tristate [of S this InfixOperator name d d1 d2]
    lookupOperatorDeclForName_tristate [of S this PrefixOperator name d d1 d2]
    lookupOperatorDeclForName_tristate [of S this PostfixOperator name d d1 d2]
  by blast

theorem operator_lookup_tristate_witness:
  "lookupInfixOperator operator_store 3 ''+'' 0 = None \<and>
   lookupInfixOperator operator_store 3 ''*'' 0 = Some (Some 11) \<and>
   lookupInfixOperator operator_store 3 ''-'' 0 = Some nullptr \<and>
   lookupPrefixOperator operator_store 3 ''+'' 0 = Some nullptr \<and>
   lookupPostfixOperator operator_store 3 ''+'' 0 = Some nullptr"
proof -
  have vm: "visibleModules operator_store 3 = {3, 4, 2}"
    using forAllVisibleModules_visits_visible
      [of "\<lambda>im s. (True, s)" operator_store 3 "[]" "()", symmetric]
    by (simp add: forAllVisibleModules_def operator_store_def fresh_unit_def
        getImportedModules_def isTranslationUnit_def Let_def)
  have tables:
    "operatorTable operator_store 4 InfixOperator = [''+'' \<mapsto> 10, ''*'' \<mapsto> 11]"
    "operatorTable operator_store 2 InfixOperator = [''+'' \<mapsto> 20]"
    "operatorTable operator_store 3 InfixOperator = Map.empty"
    "operatorTable operator_store 4 PrefixOperator = Map.empty"
    "operatorTable operator_store 2 PrefixOperator = Map.empty"
    "operatorTable operator_store 3 PrefixOperator = Map.empty"
    "operatorTable operator_store 4 PostfixOperator = Map.empty"
    "operatorTable operator_store 2 PostfixOperator = Map.empty"
    "operatorTable operator_store 3 PostfixOperator = Map.empty"
    by (simp_all add: operatorTable_def operator_store_def fresh_unit_def fun_eq_iff)
  have plus: "10 \<in> visibleOperators operator_store 3 InfixOperator ''+''"
    "20 \<in> visibleOperators operator_store 3 InfixOperator ''+''"
    by (simp_all add: visibleOperators_def vm tables)
  have times: "visibleOperators operator_store 3 InfixOperator ''*'' = {11}"
    by (auto simp: visibleOperators_def vm tables)
  have minus: "visibleOperators operator_store 3 InfixOperator ''-'' = {}"
    by (auto simp: visibleOperators_def vm tables)
  have pre: "visibleOperators operator_store 3 PrefixOperator ''+'' = {}"
    by (auto simp: visibleOperators_def vm tables)
  have post: "visibleOperators operator_store 3 PostfixOperator ''+'' = {}"
    by (auto simp: visibleOperators_def vm tables)
  from plus times minus pre post show ?thesis
    using operator_lookup_tristate [of operator_store 3 "''+''" 0 0 10 20]
      operator_lookup_tristate [of operator_store 3 "''*''" 0 11 0 0]
      operator_lookup_tristate [of operator_store 3 "''-''" 0 0 0 0]
    by simp
qed

subsection \<open>C6: the option presets\<close>

text \<open>
  C6. The presets for qualified and for unqualified lookup hold exactly the options
  VisitSupertypes, RemoveNonVisible and RemoveOverridden (the value \<open>0x0D\<close>), and the
  preset for constructor lookup holds exactly RemoveNonVisible (the value \<open>0x04\<close>); none
  of the three holds ProtocolMembers or DynamicLookup.
\<close>

theorem default_presets:
  "NL_QualifiedDefault = 0x0D \<and> NL_UnqualifiedDefault = 0x0D \<and> NL_Constructor = 0x04 \<and>
   hasOption NL_QualifiedDefault NL_VisitSupertypes \<and>
   hasOption NL_QualifiedDefault NL_RemoveNonVisible \<and>
   hasOption NL_QualifiedDefault NL_RemoveOverridden \<and>
   \<not> hasOption NL_QualifiedDefault NL_ProtocolMembers \<and>
   \<not> hasOption NL_QualifiedDefault NL_DynamicLookup \<and>
   hasOption NL_UnqualifiedDefault NL_VisitSupertypes \<and>
   hasOption NL_UnqualifiedDefault NL_RemoveNonVisible \<and>
   hasOption NL_UnqualifiedDefault NL_RemoveOverridden \<and>
   \<not> hasOption NL_UnqualifiedDefault NL_ProtocolMembers \<and>
   \<not> hasOption NL_UnqualifiedDefault NL_DynamicLookup \<and>
   \<not> hasOption NL_Constructor NL_VisitSupertypes \<and>
   hasOption NL_Constructor NL_RemoveNonVisible \<and>
   \<not> hasOption NL_Constructor NL_RemoveOverridden \<and>
   \<not> hasOption NL_Constructor NL_ProtocolMembers \<and>
   \<not> hasOption NL_Constructor NL_DynamicLookup"
  by (simp add: NL_QualifiedDefault_def NL_UnqualifiedDefault_def NL_Constructor_def
      NL_VisitSupertypes_def NL_ProtocolMembers_def NL_RemoveNonVisible_def
      NL_RemoveOverridden_def NL_DynamicLookup_def hasOption_def)

subsection \<open>C7: the walker on cyclic import graphs\<close>

text \<open>
  C7. On every store of modules, cyclic or not, from every starting module, with every
  visitor and with or without a top-level access path, \<^verbatim>\<open>forAllVisibleModules\<close> returns
  (the walker is a total function), and the sequence of the visitor's calls has these
  properties: no module is passed to the visitor twice, whatever the access paths; every
  call but the last returned the continue signal, so the call that returns abort is the
  last one; the recorded signals and the final state are those of running the visitor
  over the recorded calls in order; there are at most as many calls as the store has
  import targets, plus one. When a top-level access path is supplied, the first call is
  on the starting module under that path.
\<close>

theorem forAllVisibleModules_cycle_safe:
  "distinct (map (\<lambda>c. snd (fst c)) (fst (forAllVisibleModules S this path fn s))) \<and>
   list_all snd (butlast (fst (forAllVisibleModules S this path fn s))) \<and>
   replay fn (map fst (fst (forAllVisibleModules S this path fn s))) s =
     (map snd (fst (forAllVisibleModules S this path fn s)),
      snd (forAllVisibleModules S this path fn s)) \<and>
   length (fst (forAllVisibleModules S this path fn s)) \<le> Suc (card (importTargets S)) \<and>
   fst (forAllVisibleModules S this (Some p) fn s) \<noteq> [] \<and>
   fst (hd (fst (forAllVisibleModules S this (Some p) fn s))) = (p, this)"
proof -
  let ?q = "getImportedModules S this (isTranslationUnit S this)"
  have q: "snd ` set ?q \<subseteq> importTargets S"
    by (rule getImportedModules_targets)
  have fresh: "this \<notin> (\<lambda>c. snd (fst c)) ` set (fst (walk S fn ?q [this] s'))" for s'
    using walk_fresh [of _ S fn ?q "[this]" s'] by fastforce
  have d: "distinct (map (\<lambda>c. snd (fst c)) (fst (forAllVisibleModules S this path fn s)))"
    using fresh walk_distinct [of S fn ?q "[this]"]
    by (cases path) (simp_all add: forAllVisibleModules_def Let_def)
  have a: "list_all snd (butlast (fst (forAllVisibleModules S this path fn s)))"
    using walk_stops_at_abort [of S fn ?q "[this]"]
    by (cases path) (simp_all add: forAllVisibleModules_def Let_def)
  have r: "replay fn (map fst (fst (forAllVisibleModules S this path fn s))) s =
     (map snd (fst (forAllVisibleModules S this path fn s)),
      snd (forAllVisibleModules S this path fn s))"
    by (rule forAllVisibleModules_replay)
  have l: "length (fst (forAllVisibleModules S this path fn s)) \<le> Suc (card (importTargets S))"
    using walk_length [OF q, of fn "[this]"]
    by (cases path) (auto simp: forAllVisibleModules_def Let_def le_SucI)
  have h: "fst (forAllVisibleModules S this (Some p) fn s) \<noteq> [] \<and>
      fst (hd (fst (forAllVisibleModules S this (Some p) fn s))) = (p, this)"
    by (simp add: forAllVisibleModules_def Let_def)
  from d a r l h show ?thesis by blast
qed

text \<open>
  Modules 1 and 2 re-export each other: from module 1 under the empty top-level path the
  visitor is called on module 1, then on module 2, once each (module 2 is imported under
  two access paths), and the traversal ends. A visitor that aborts at its second call is
  not called a third time. From module 2 without a top-level path, only module 1 is
  reported.
\<close>

theorem forAllVisibleModules_cycle_safe_witness:
  "fst (forAllVisibleModules cyclic_store 1 (Some []) (\<lambda>im n. (True, Suc n)) (0::nat)) =
     [(([], 1), True), (([(''B'', 1)], 2), True)] \<and>
   snd (forAllVisibleModules cyclic_store 1 (Some []) (\<lambda>im n. (True, Suc n)) (0::nat)) = 2 \<and>
   distinct (map (\<lambda>c. snd (fst c))
     (fst (forAllVisibleModules cyclic_store 1 (Some []) (\<lambda>im n. (True, Suc n)) (0::nat)))) \<and>
   fst (forAllVisibleModules cyclic_store 1 (Some []) (\<lambda>im n. (n < 1, Suc n)) (0::nat)) =
     [(([], 1), True), (([(''B'', 1)], 2), False)] \<and>
   list_all snd (butlast
     (fst (forAllVisibleModules cyclic_store 1 (Some []) (\<lambda>im n. (n < 1, Suc n)) (0::nat)))) \<and>
   fst (forAllVisibleModules cyclic_store 2 None (\<lambda>im n. (True, Suc n)) (0::nat)) =
     [(([(''A'', 7)], 1), True)]"
  using forAllVisibleModules_cycle_safe
      [of cyclic_store 1 "Some []" "\<lambda>im n. (True, Suc n)" "0::nat" "[]"]
    forAllVisibleModules_cycle_safe
      [of cyclic_store 1 "Some []" "\<lambda>im n. (n < 1, Suc n)" "0::nat" "[]"]
  by (simp add: forAllVisibleModules_def cyclic_store_def fresh_unit_def
      getImportedModules_def isTranslationUnit_def Let_def)

subsection \<open>C9: the three outcomes of conformance lookup\<close>

text \<open>
  C9. \<^verbatim>\<open>lookupConformance\<close> returns DoesNotConform, with a null pointer, exactly when no
  conformance of the type to the protocol is declared. For a declared conformance that has
  not completed type-checking it returns UncheckedConforms, with the in-progress
  conformance if one exists and a null pointer if only the declaration of intent does.
  Whenever it returns Conforms, the pointer is not null and is the conformance of the
  checked declaration.
\<close>

theorem conformance_tristate:
  "(getInt (lookupConformance declared type protocol resolver) = DoesNotConform
      \<longleftrightarrow> (type, protocol) \<notin> fst ` set declared) \<and>
   ((type, protocol) \<notin> fst ` set declared \<longrightarrow>
      lookupConformance declared type protocol resolver = (nullptr, DoesNotConform)) \<and>
   (map_of declared (type, protocol) = Some (InProgress c) \<longrightarrow>
      lookupConformance declared type protocol resolver = (Some c, UncheckedConforms)) \<and>
   (map_of declared (type, protocol) = Some DeclarationOfIntent \<longrightarrow>
      lookupConformance declared type protocol resolver = (nullptr, UncheckedConforms)) \<and>
   (getInt (lookupConformance declared type protocol resolver) = Conforms \<longrightarrow>
      (\<exists>c. getPointer (lookupConformance declared type protocol resolver) = Some c \<and>
           map_of declared (type, protocol) = Some (Checked c)))"
proof (cases "map_of declared (type, protocol)")
  case None
  then have "(type, protocol) \<notin> fst ` set declared"
    by (simp add: map_of_eq_None_iff)
  with None show ?thesis
    by (simp add: lookupConformance_def getInt_def)
next
  case (Some dc)
  then have "(type, protocol) \<in> fst ` set declared"
    by (metis map_of_eq_None_iff option.distinct(1))
  with Some show ?thesis
    by (cases dc) (simp_all add: lookupConformance_def getInt_def getPointer_def)
qed

theorem conformance_tristate_witness:
  "lookupConformance example_conformances 1 7 nullptr = (Some 70, Conforms) \<and>
   lookupConformance example_conformances 1 8 nullptr = (Some 80, UncheckedConforms) \<and>
   lookupConformance example_conformances 1 9 nullptr = (nullptr, UncheckedConforms) \<and>
   lookupConformance example_conformances 1 6 nullptr = (nullptr, DoesNotConform) \<and>
   lookupConformance example_conformances 2 7 nullptr = (nullptr, DoesNotConform)"
  using conformance_tristate [of example_conformances 1 7 nullptr 70]
    conformance_tristate [of example_conformances 1 8 nullptr 80]
    conformance_tristate [of example_conformances 1 9 nullptr 0]
    conformance_tristate [of example_conformances 1 6 nullptr 0]
    conformance_tristate [of example_conformances 2 7 nullptr 0]
  by (simp add: example_conformances_def lookupConformance_def)

subsection \<open>C10: the owning component\<close>

text \<open>
  C10. A module that the \<^verbatim>\<open>Module\<close> constructor returns has a component that is not null,
  or is of kind BuiltinModule; with a null component and another kind the constructor
  fails. On the module that the \<^verbatim>\<open>BuiltinModule\<close> constructor returns, \<^verbatim>\<open>getComponent\<close>
  fails. A translation unit, and a loaded module of a kind other than BuiltinModule, is
  constructed only with a component that is not null, and \<^verbatim>\<open>getComponent\<close> returns that
  component.
\<close>

theorem component_invariant:
  "(Module_ctor mkind name component ctx = Inr m \<longrightarrow>
      Comp m \<noteq> nullptr \<or> Kind m = BuiltinModule) \<and>
   (mkind \<noteq> BuiltinModule \<longrightarrow> Module_ctor mkind name nullptr ctx = Inl AssertionFailure) \<and>
   (BuiltinModule_ctor name ctx = Inr b \<longrightarrow>
      Kind b = BuiltinModule \<and> getComponent b = Inl AssertionFailure) \<and>
   (TranslationUnit_ctor name component ctx kind = Inr tu \<longrightarrow>
      Kind tu = TranslationUnit \<and> component \<noteq> nullptr \<and> getComponent tu = Inr component) \<and>
   (LoadedModule_ctor mkind name dbg component ctx owner = Inr lm \<longrightarrow>
      Kind lm = mkind \<and> (Comp lm \<noteq> nullptr \<or> mkind = BuiltinModule) \<and>
      (mkind \<noteq> BuiltinModule \<longrightarrow> component \<noteq> nullptr \<and> getComponent lm = Inr component))"
  by (auto simp: TranslationUnit_ctor_def BuiltinModule_ctor_def LoadedModule_ctor_def
      Module_ctor_def getComponent_def split: if_splits)

theorem component_invariant_witness:
  "Module_ctor ClangModule ''main'' (Some 1) 0 =
     Inr \<lparr>Kind = ClangModule, LookupCachePimpl = nullptr, Comp = Some 1, Ctx = 0,
          Name = ''main'', ASTStage = Parsing\<rparr> \<and>
   Module_ctor ClangModule ''main'' nullptr 0 = Inl AssertionFailure \<and>
   BuiltinModule_ctor ''main'' 0 =
     Inr \<lparr>Kind = BuiltinModule, LookupCachePimpl = nullptr, Comp = nullptr, Ctx = 0,
          Name = ''main'', ASTStage = TypeChecked\<rparr> \<and>
   getComponent \<lparr>Kind = BuiltinModule, LookupCachePimpl = nullptr, Comp = nullptr, Ctx = 0,
          Name = ''main'', ASTStage = TypeChecked\<rparr> = Inl AssertionFailure \<and>
   TranslationUnit_ctor ''main'' (Some 1) 0 Main = Inr fresh_unit \<and>
   getComponent fresh_unit = Inr (Some 1) \<and>
   LoadedModule_ctor ClangModule ''main'' ''Cocoa'' (Some 1) 0 5 =
     Inr \<lparr>Kind = ClangModule, LookupCachePimpl = Some 5, Comp = Some 1, Ctx = 0,
          Name = ''main'', ASTStage = TypeChecked, DebugModuleName = ''Cocoa''\<rparr> \<and>
   getComponent \<lparr>Kind = ClangModule, LookupCachePimpl = Some 5, Comp = Some 1, Ctx = 0,
          Name = ''main'', ASTStage = TypeChecked, DebugModuleName = ''Cocoa''\<rparr> = Inr (Some 1)"
  using component_invariant [of ClangModule "''main''" "Some 1" 0
      "\<lparr>Kind = ClangModule, LookupCachePimpl = nullptr, Comp = Some 1, Ctx = 0,
        Name = ''main'', ASTStage = Parsing\<rparr>"
      "\<lparr>Kind = BuiltinModule, LookupCachePimpl = nullptr, Comp = nullptr, Ctx = 0,
        Name = ''main'', ASTStage = TypeChecked\<rparr>"
      Main fresh_unit "''Cocoa''" 5
      "\<lparr>Kind = ClangModule, LookupCachePimpl = Some 5, Comp = Some 1, Ctx = 0,
        Name = ''main'', ASTStage = TypeChecked, DebugModuleName = ''Cocoa''\<rparr>"]
  by (simp add: TranslationUnit_ctor_def BuiltinModule_ctor_def LoadedModule_ctor_def
      Module_ctor_def fresh_unit_def)

end
